theory Spec2Isabelle
  imports Main
begin

section \<open>The Flow process supervisor (flow-base/lib/FlowProcess.js)\<close>

text \<open>
  A shallow embedding of the class \<open>FlowProcess\<close>. One \<open>FlowProcess\<close> object supervises
  the Flow server of one project root: it runs one-shot \<open>flow\<close> commands with a bounded
  retry loop (\<open>execFlow\<close>), classifies their exit codes into a server status
  (\<open>_updateServerStatus\<close>), starts a server whenever the status becomes \<open>'not running'\<close>
  (\<open>_startFlowServer\<close>) and kills the server it started on \<open>dispose\<close>.

  The object's fields and the effects it has on the outside world (values delivered to
  the status subscribers, processes spawned, signals sent, log lines) are the fields of
  one record, passed explicitly. What the outside world answers (is Flow installed, how
  does a command exit, which other callbacks run while a call is suspended at an
  \<open>await\<close>) is an argument of the model.
\<close>

subsection \<open>Data\<close>

text \<open>The table \<open>FLOW_RETURN_CODES\<close> (lines 34-43).\<close>

record flow_return_codes =
  ok :: int
  serverInitializing :: int
  typeError :: int
  noServerRunning :: int
  outOfRetries :: int
  buildIdMismatch :: int

definition FLOW_RETURN_CODES :: flow_return_codes where
  "FLOW_RETURN_CODES =
     \<lparr>ok = 0, serverInitializing = 1, typeError = 2, noServerRunning = 6,
      outOfRetries = 7, buildIdMismatch = 9\<rparr>"

text \<open>
  The type \<open>ServerStatus\<close>: the string literals the class stores in \<open>_serverStatus\<close>:
  \<open>'unknown'\<close>, \<open>'not running'\<close>, \<open>'init'\<close>, \<open>'busy'\<close>, \<open>'ready'\<close>, \<open>'failed'\<close>,
  \<open>'not installed'\<close>.
\<close>

datatype ServerStatus = Unknown | NotRunning | Init | Busy | Ready | Failed | NotInstalled

text \<open>The result of \<open>asyncExecute\<close> (\<open>process$asyncExecuteRet\<close>).\<close>

record asyncExecuteRet =
  exitCode :: int
  stdout :: string
  stderr :: string

text \<open>
  The objects that reach \<open>_updateServerStatus\<close> and the \<open>catch\<close> clauses: the object
  \<open>asyncExecute\<close> resolves or rejects with, and the error \<open>invariant\<close> throws, which has
  no \<open>exitCode\<close> property.
\<close>

datatype obj = Ret asyncExecuteRet | AssertionError

fun exitCodeOf :: "obj \<Rightarrow> int option" where
  "exitCodeOf (Ret r) = Some (exitCode r)"
| "exitCodeOf AssertionError = None"

text \<open>The lines the class writes through \<open>logger\<close>.\<close>

datatype log_entry =
    FlowFailed "string list" obj
  | ServerExited string
  | KilledServer string
  | UnknownReturnCode "int option"

text \<open>
  The object. \<open>startedServer\<close>, \<open>serverStatus\<close> with \<open>isStopped\<close>, and \<open>root\<close> are the
  fields \<open>_startedServer\<close>, \<open>_serverStatus\<close> (the current value of the subject and
  whether it has completed) and \<open>_root\<close>. The other fields record effects:
  \<^item> \<open>delivered\<close>: the values the subject has passed to the subscription made in the
    constructor, oldest first (before the \<open>filter\<close>);
  \<^item> \<open>starting\<close>: the calls of \<open>_startFlowServer\<close> that are suspended at
    \<open>await safeSpawn\<close>;
  \<^item> \<open>spawned\<close>: the number of server processes spawned; process \<open>h\<close> is the
    \<open>h\<close>-th one;
  \<^item> \<open>kills\<close>: the signals sent with \<open>kill\<close>, oldest first;
  \<^item> \<open>rawExecs\<close>: the number of calls of \<open>_rawExecFlow\<close>;
  \<^item> \<open>executed\<close>: the argument lists passed to \<open>asyncExecute\<close>, oldest first;
  \<^item> \<open>log\<close>: the lines logged, oldest first.
\<close>

record FlowProcess =
  startedServer :: "nat option"
  serverStatus :: ServerStatus
  isStopped :: bool
  root :: string
  delivered :: "ServerStatus list"
  starting :: nat
  spawned :: nat
  kills :: "(nat \<times> string) list"
  rawExecs :: nat
  executed :: "string list list"
  log :: "log_entry list"

subsection \<open>The status subject and the server\<close>

text \<open>
  \<open>_startFlowServer\<close> (lines 110-140) runs up to \<open>await safeSpawn(...)\<close> when it is
  called, and the rest when the spawn has resolved: the new process becomes
  \<open>_startedServer\<close>. Nothing looks at \<open>_startedServer\<close> or at a call in flight before
  spawning.
\<close>

definition startFlowServer :: "FlowProcess \<Rightarrow> FlowProcess" where
  "startFlowServer s = s\<lparr>starting := starting s + 1\<rparr>"

definition startFlowServer_resume :: "FlowProcess \<Rightarrow> FlowProcess" where
  "startFlowServer_resume s =
     (if starting s = 0 then s
      else s\<lparr>starting := starting s - 1, spawned := spawned s + 1,
             startedServer := Some (spawned s)\<rparr>)"

text \<open>
  Modelled from the spec: the class \<open>BehaviorSubject\<close> of the library \<open>rx\<close> is not under
  src/. The spec's StatusChannel holds one current value, \<open>complete()\<close> makes it
  terminal, and after that no further update is honoured. \<open>onNext\<close> on a subject that
  has not completed stores the value and passes it to the subscribers; the only
  subscriber is the constructor's (lines 57-59), which calls \<open>_startFlowServer\<close> on
  \<open>'not running'\<close>. \<open>onNext\<close> itself does not compare the value with the current one.
\<close>

definition getValue :: "FlowProcess \<Rightarrow> ServerStatus" where
  "getValue s = serverStatus s"

definition onNext :: "ServerStatus \<Rightarrow> FlowProcess \<Rightarrow> FlowProcess" where
  "onNext v s =
     (if isStopped s then s
      else let s1 = s\<lparr>serverStatus := v, delivered := delivered s @ [v]\<rparr>
           in if v = NotRunning then startFlowServer s1 else s1)"

definition onCompleted :: "FlowProcess \<Rightarrow> FlowProcess" where
  "onCompleted s = (if isStopped s then s else s\<lparr>isStopped := True\<rparr>)"

text \<open>
  The constructor (lines 53-60). Subscribing to a \<open>BehaviorSubject\<close> delivers the
  current value at once: \<open>'unknown'\<close>, which the filter drops.
\<close>

definition constructor :: "string \<Rightarrow> FlowProcess" where
  "constructor r =
     \<lparr>startedServer = None, serverStatus = Unknown, isStopped = False, root = r,
      delivered = [Unknown], starting = 0, spawned = 0, kills = [], rawExecs = 0,
      executed = [], log = []\<rparr>"

text \<open>\<open>dispose\<close> (lines 62-68).\<close>

definition dispose :: "FlowProcess \<Rightarrow> FlowProcess" where
  "dispose s =
     (let s1 = onCompleted s
      in case startedServer s1 of
           None \<Rightarrow> s1
         | Some h \<Rightarrow> s1\<lparr>kills := kills s1 @ [(h, ''SIGKILL'')]\<rparr>)"

text \<open>
  The handler of the server's \<open>'exit'\<close> event (lines 125-138), with the exit code and
  the signal; \<open>None\<close> is \<open>null\<close>.
\<close>

definition onExit :: "int option \<Rightarrow> string option \<Rightarrow> FlowProcess \<Rightarrow> FlowProcess" where
  "onExit code signal s =
     (if code = Some 2 \<and> signal = None
      then onCompleted (onNext Failed (s\<lparr>log := log s @ [ServerExited (root s)]\<rparr>))
      else s)"

subsection \<open>Classifying a result\<close>

text \<open>
  Lines 166-195 of \<open>_updateServerStatus\<close>: the local variable \<open>status\<close>, which is
  undefined (\<open>None\<close>) until a branch assigns it, and the lines logged. The \<open>switch\<close>
  compares \<open>result.exitCode\<close> with the cases in their order.
\<close>

definition chooseStatus :: "string \<Rightarrow> obj option \<Rightarrow> ServerStatus option \<times> log_entry list" where
  "chooseStatus r result =
     (case result of
        None \<Rightarrow> (Some NotInstalled, [])
      | Some res \<Rightarrow>
          (let c = exitCodeOf res in
           if c = Some (ok FLOW_RETURN_CODES) \<or> c = Some (typeError FLOW_RETURN_CODES)
             then (Some Ready, [])
           else if c = Some (serverInitializing FLOW_RETURN_CODES)
             then (Some Init, [])
           else if c = Some (noServerRunning FLOW_RETURN_CODES)
             then (Some NotRunning, [])
           else if c = Some (outOfRetries FLOW_RETURN_CODES)
             then (Some Busy, [])
           else if c = Some (buildIdMismatch FLOW_RETURN_CODES)
             then (Some NotRunning, [KilledServer r])
           else (Some Unknown, [UnknownReturnCode c])))"

text \<open>
  \<open>_updateServerStatus\<close> (lines 165-200): \<open>invariant(status != null)\<close> throws an
  \<open>AssertionError\<close> when no status was chosen; otherwise the status goes to the subject
  when it differs from the current value.
\<close>

definition updateServerStatus :: "obj option \<Rightarrow> FlowProcess \<Rightarrow> (obj + unit) \<times> FlowProcess" where
  "updateServerStatus result s =
     (let (status, msgs) = chooseStatus (root s) result;
          s1 = s\<lparr>log := log s @ msgs\<rparr>
      in case status of
           None \<Rightarrow> (Inl AssertionError, s1)
         | Some st \<Rightarrow> (Inr (), if st \<noteq> getValue s1 then onNext st s1 else s1))"

subsection \<open>What happens between the steps of a call\<close>

text \<open>
  The callbacks that can run while a call is suspended at an \<open>await\<close>: another
  command's \<open>_updateServerStatus\<close>, a spawn that resolves, a server that exits, and
  \<open>dispose\<close>.
\<close>

datatype event =
    Update "obj option"
  | Spawned
  | Exited "int option" "string option"
  | Disposed

fun step :: "event \<Rightarrow> FlowProcess \<Rightarrow> FlowProcess" where
  "step (Update result) s = snd (updateServerStatus result s)"
| "step Spawned s = startFlowServer_resume s"
| "step (Exited code signal) s = onExit code signal s"
| "step Disposed s = dispose s"

fun run :: "event list \<Rightarrow> FlowProcess \<Rightarrow> FlowProcess" where
  "run [] s = s"
| "run (e # es) s = run es (step e s)"

subsection \<open>Running a command\<close>

text \<open>
  What the outside world does during one call of \<open>_rawExecFlow\<close>: whether
  \<open>isFlowInstalled()\<close> resolves to true, how \<open>asyncExecute\<close> settles, and the callbacks
  that run while the call waits for \<open>isFlowInstalled\<close>, while it waits for
  \<open>asyncExecute\<close>, and between the moment \<open>_rawExecFlow\<close> settles and the moment
  \<open>execFlow\<close> resumes.
\<close>

datatype settled = Resolved asyncExecuteRet | Rejected asyncExecuteRet

record attempt =
  installed :: bool
  settles :: settled
  whileChecking :: "event list"
  whileExecuting :: "event list"
  beforeResume :: "event list"

text \<open>\<open>_getFlowExecOptions\<close> (lines 205-214): the options are \<open>{cwd: root}\<close>.\<close>

definition getFlowExecOptions :: "bool \<Rightarrow> FlowProcess \<Rightarrow> string option" where
  "getFlowExecOptions isInstalled s = (if isInstalled then Some (root s) else None)"

text \<open>
  \<open>_rawExecFlow\<close> (lines 143-163). \<open>rawExecFlow_catch\<close> is its \<open>catch\<close> clause
  (lines 159-162), which also receives what \<open>_updateServerStatus\<close> throws inside the
  \<open>try\<close>. Of a call of \<open>asyncExecute\<close> the argument list is recorded; the path of
  the executable and the merged options are not.
\<close>

definition rawExecFlow_catch :: "obj \<Rightarrow> FlowProcess \<Rightarrow> (obj + asyncExecuteRet option) \<times> FlowProcess" where
  "rawExecFlow_catch e s =
     (case updateServerStatus (Some e) s of
        (Inr _, s1) \<Rightarrow> (Inl e, s1)
      | (Inl e1, s1) \<Rightarrow> (Inl e1, s1))"

definition rawExecFlow :: "string list \<Rightarrow> attempt \<Rightarrow> FlowProcess \<Rightarrow> (obj + asyncExecuteRet option) \<times> FlowProcess" where
  "rawExecFlow args a s0 =
     (let s = run (whileChecking a) (s0\<lparr>rawExecs := rawExecs s0 + 1\<rparr>)
      in case getFlowExecOptions (installed a) s of
           None \<Rightarrow> (Inr None, s)
         | Some flowOptions \<Rightarrow>
             (let args1 = args @ [''--no-auto-start'', ''--from'', ''nuclide''];
                  s1 = run (whileExecuting a) (s\<lparr>executed := executed s @ [args1]\<rparr>)
              in case settles a of
                   Resolved result \<Rightarrow>
                     (case updateServerStatus (Some (Ret result)) s1 of
                        (Inr _, s2) \<Rightarrow> (Inr (Some result), s2)
                      | (Inl e, s2) \<Rightarrow> rawExecFlow_catch e s2)
                 | Rejected e \<Rightarrow> rawExecFlow_catch (Ret e) s1))"

text \<open>
  \<open>execFlow\<close> (lines 73-107). The arguments \<open>options\<close> and \<open>file\<close> do not influence the
  control flow and are left out. \<open>env i\<close> is what the outside world does during the
  iteration with loop counter \<open>i\<close>. The result is \<open>Inl e\<close> when the call throws \<open>e\<close>.
\<close>

definition maxTries :: nat where
  "maxTries = 5"

definition shouldRetry :: "FlowProcess \<Rightarrow> bool" where
  "shouldRetry s = (getValue s \<in> set [NotRunning, Init, Busy])"

function execFlow_loop ::
  "string list \<Rightarrow> (nat \<Rightarrow> attempt) \<Rightarrow> bool \<Rightarrow> nat \<Rightarrow> FlowProcess
     \<Rightarrow> (obj + asyncExecuteRet option) \<times> FlowProcess" where
  "execFlow_loop args env logErrors i s =
     (case rawExecFlow args (env i) s of
        (Inr result, s1) \<Rightarrow> (Inr result, run (beforeResume (env i)) s1)
      | (Inl e, s1) \<Rightarrow>
          (let s2 = run (beforeResume (env i)) s1
           in if i < maxTries \<and> shouldRetry s2
              then execFlow_loop args env logErrors (i + 1) s2
              else (Inl e, if logErrors then s2\<lparr>log := log s2 @ [FlowFailed args e]\<rparr> else s2)))"
  by pat_completeness auto
termination
  by (relation "measure (\<lambda>(args, env, logErrors, i, s). maxTries - i)") auto

declare execFlow_loop.simps [simp del]

definition execFlow ::
  "string list \<Rightarrow> (nat \<Rightarrow> attempt) \<Rightarrow> bool \<Rightarrow> FlowProcess
     \<Rightarrow> (obj + asyncExecuteRet option) \<times> FlowProcess" where
  "execFlow args env logErrors s =
     (if getValue s = Failed then (Inr None, s)
      else execFlow_loop args env logErrors 0 s)"

text \<open>
  The state in which the iteration with loop counter \<open>k\<close> of a call of \<open>execFlow\<close>
  begins, when the call was made in state \<open>s\<close>; \<open>None\<close> when the loop has ended
  before. Iteration 0 begins in \<open>s\<close>; iteration \<open>k + 1\<close> begins where iteration \<open>k\<close>
  has chosen to try again (lines 90-94).
\<close>

fun iteration :: "string list \<Rightarrow> (nat \<Rightarrow> attempt) \<Rightarrow> nat \<Rightarrow> FlowProcess \<Rightarrow> FlowProcess option" where
  "iteration args env 0 s = Some s"
| "iteration args env (Suc k) s =
     (case iteration args env k s of
        None \<Rightarrow> None
      | Some sk \<Rightarrow>
          (case rawExecFlow args (env k) sk of
             (Inr result, s1) \<Rightarrow> None
           | (Inl e, s1) \<Rightarrow>
               (let s2 = run (beforeResume (env k)) s1
                in if k < maxTries \<and> shouldRetry s2 then Some s2 else None)))"

subsection \<open>Example inputs and the invariant of the status subject\<close>

text \<open>
  A result with a given exit code and no output, and an attempt during which Flow is
  installed and no other callback runs.
\<close>

definition exited :: "int \<Rightarrow> asyncExecuteRet" where
  "exited c = \<lparr>exitCode = c, stdout = [], stderr = []\<rparr>"

definition undisturbed :: "settled \<Rightarrow> attempt" where
  "undisturbed x =
     \<lparr>installed = True, settles = x, whileChecking = [], whileExecuting = [],
      beforeResume = []\<rparr>"

text \<open>
  The subscription has received at least the value replayed when it subscribed, the
  last value it received is the current one, it never received the same value twice
  in a row, and a subject whose value is \<open>'failed'\<close> has completed.
\<close>

definition channel_inv :: "FlowProcess \<Rightarrow> bool" where
  "channel_inv s =
     (delivered s \<noteq> [] \<and> last (delivered s) = serverStatus s \<and>
      distinct_adj (delivered s) \<and> (serverStatus s = Failed \<longrightarrow> isStopped s))"

section \<open>Properties\<close>

subsection \<open>The classification never fails\<close>

lemma chooseStatus_Some: "\<exists>st. fst (chooseStatus r res) = Some st"
  by (simp add: chooseStatus_def Let_def split: option.split)

lemma chooseStatus_not_Failed: "fst (chooseStatus r res) \<noteq> Some Failed"
  by (simp add: chooseStatus_def Let_def split: option.split)

lemma updateServerStatus_Inr: "fst (updateServerStatus res s) = Inr ()"
  by (simp add: updateServerStatus_def chooseStatus_def Let_def split: option.split)

lemma updateServerStatus_pair:
  "updateServerStatus res s = (Inr (), snd (updateServerStatus res s))"
  using updateServerStatus_Inr [of res s] by (cases "updateServerStatus res s") simp

lemma updateServerStatus_case:
  "(case updateServerStatus res t of (Inr u, s2) \<Rightarrow> f s2 | (Inl e, s2) \<Rightarrow> g e s2)
     = f (snd (updateServerStatus res t))"
  using updateServerStatus_Inr [of res t]
  by (cases "updateServerStatus res t") (auto split: sum.splits)

lemma updateServerStatus_open:
  "\<not> isStopped s \<Longrightarrow> fst (chooseStatus (root s) res) = Some st \<Longrightarrow>
   getValue (snd (updateServerStatus res s)) = st"
  by (auto simp add: updateServerStatus_def onNext_def getValue_def startFlowServer_def
      Let_def split: prod.splits option.splits)

text \<open>
  Claim C10. The classification in \<open>_updateServerStatus\<close> is total: for a null result
  and for a result with any exit code (also for an object without an exit code) some
  status is chosen, so \<open>invariant(status != null)\<close> holds and the call does not throw.
\<close>

theorem updateServerStatus_total:
  "(\<exists>st. fst (chooseStatus r res) = Some st) \<and> fst (updateServerStatus res s) = Inr ()"
  by (simp add: updateServerStatus_def chooseStatus_def Let_def split: option.split)

subsection \<open>The classification table\<close>

text \<open>
  Claim C2. \<open>_updateServerStatus\<close> follows the table: a null result gives
  \<open>'not installed'\<close>; exit code 0 (ok) or 2 (typeError) gives \<open>'ready'\<close>; 1
  (serverInitializing) gives \<open>'init'\<close>; 6 (noServerRunning) gives \<open>'not running'\<close>; 7
  (outOfRetries) gives \<open>'busy'\<close>; 9 (buildIdMismatch) gives \<open>'not running'\<close>; any other
  exit code gives \<open>'unknown'\<close>. The status chosen is the value of the subject after the
  call, when the subject has not completed.
\<close>

theorem updateServerStatus_table:
  "fst (chooseStatus r None) = Some NotInstalled \<and>
   (\<forall>x. exitCode x = 0 \<or> exitCode x = 2 \<longrightarrow> fst (chooseStatus r (Some (Ret x))) = Some Ready) \<and>
   (\<forall>x. exitCode x = 1 \<longrightarrow> fst (chooseStatus r (Some (Ret x))) = Some Init) \<and>
   (\<forall>x. exitCode x = 6 \<longrightarrow> fst (chooseStatus r (Some (Ret x))) = Some NotRunning) \<and>
   (\<forall>x. exitCode x = 7 \<longrightarrow> fst (chooseStatus r (Some (Ret x))) = Some Busy) \<and>
   (\<forall>x. exitCode x = 9 \<longrightarrow> fst (chooseStatus r (Some (Ret x))) = Some NotRunning) \<and>
   (\<forall>x. exitCode x \<notin> {0, 1, 2, 6, 7, 9} \<longrightarrow>
        fst (chooseStatus r (Some (Ret x))) = Some Unknown) \<and>
   (\<forall>s res st. \<not> isStopped s \<and> fst (chooseStatus (root s) res) = Some st \<longrightarrow>
        getValue (snd (updateServerStatus res s)) = st)"
  by (simp add: chooseStatus_def FLOW_RETURN_CODES_def updateServerStatus_open)

theorem updateServerStatus_table_witness:
  "fst (chooseStatus ''/r'' None) = Some NotInstalled \<and>
   fst (chooseStatus ''/r'' (Some (Ret (exited 0)))) = Some Ready \<and>
   fst (chooseStatus ''/r'' (Some (Ret (exited 2)))) = Some Ready \<and>
   fst (chooseStatus ''/r'' (Some (Ret (exited 1)))) = Some Init \<and>
   fst (chooseStatus ''/r'' (Some (Ret (exited 6)))) = Some NotRunning \<and>
   fst (chooseStatus ''/r'' (Some (Ret (exited 7)))) = Some Busy \<and>
   fst (chooseStatus ''/r'' (Some (Ret (exited 9)))) = Some NotRunning \<and>
   fst (chooseStatus ''/r'' (Some (Ret (exited 3)))) = Some Unknown \<and>
   fst (chooseStatus ''/r'' (Some (Ret (exited (- 1))))) = Some Unknown \<and>
   getValue (snd (updateServerStatus (Some (Ret (exited 7))) (constructor ''/r''))) = Busy"
proof -
  have open_channel: "\<not> isStopped (constructor ''/r'')"
    by (simp add: constructor_def)
  have root: "root (constructor ''/r'') = ''/r''"
    by (simp add: constructor_def)
  show ?thesis
    using updateServerStatus_table [of "''/r''"] open_channel root
    by (simp add: exited_def)
qed

subsection \<open>One raw invocation and one iteration of the retry loop\<close>

lemma rawExecFlow_catch_eq:
  "rawExecFlow_catch e s = (Inl e, snd (updateServerStatus (Some e) s))"
  unfolding rawExecFlow_catch_def
  by (subst updateServerStatus_pair) simp

text \<open>
  So \<open>_rawExecFlow\<close> has three outcomes: null when Flow is not installed, the result
  when \<open>asyncExecute\<close> resolves, and the rejection rethrown; in the last two the status
  has been updated from the result.
\<close>

lemma rawExecFlow_eq:
  "rawExecFlow args a s0 =
     (let s = run (whileChecking a) (s0\<lparr>rawExecs := rawExecs s0 + 1\<rparr>)
      in if \<not> installed a then (Inr None, s)
         else let s1 = run (whileExecuting a)
                     (s\<lparr>executed := executed s @ [args @ [''--no-auto-start'', ''--from'', ''nuclide'']]\<rparr>)
              in case settles a of
                   Resolved result \<Rightarrow>
                     (Inr (Some result), snd (updateServerStatus (Some (Ret result)) s1))
                 | Rejected e \<Rightarrow>
                     (Inl (Ret e), snd (updateServerStatus (Some (Ret e)) s1)))"
  unfolding rawExecFlow_def rawExecFlow_catch_eq updateServerStatus_case
  by (simp add: getFlowExecOptions_def Let_def split: settled.splits)

lemma execFlow_loop_return:
  "rawExecFlow args (env i) s = (Inr v, s1) \<Longrightarrow>
   execFlow_loop args env logErrors i s = (Inr v, run (beforeResume (env i)) s1)"
  by (subst execFlow_loop.simps) simp

lemma execFlow_loop_retry:
  "rawExecFlow args (env i) s = (Inl e, s1) \<Longrightarrow> i < maxTries \<Longrightarrow>
   shouldRetry (run (beforeResume (env i)) s1) \<Longrightarrow>
   execFlow_loop args env logErrors i s =
     execFlow_loop args env logErrors (i + 1) (run (beforeResume (env i)) s1)"
  by (subst execFlow_loop.simps) (simp add: Let_def)

lemma execFlow_loop_throw:
  "rawExecFlow args (env i) s = (Inl e, s1) \<Longrightarrow>
   \<not> (i < maxTries \<and> shouldRetry (run (beforeResume (env i)) s1)) \<Longrightarrow>
   execFlow_loop args env logErrors i s =
     (Inl e, if logErrors
             then (run (beforeResume (env i)) s1)
                    \<lparr>log := log (run (beforeResume (env i)) s1) @ [FlowFailed args e]\<rparr>
             else run (beforeResume (env i)) s1)"
  by (subst execFlow_loop.simps) (auto simp: Let_def)

subsection \<open>Counting the calls of \<open>_rawExecFlow\<close>\<close>

lemma step_rawExecs: "rawExecs (step e s) = rawExecs s"
  by (cases e)
     (auto simp: updateServerStatus_def onNext_def onCompleted_def onExit_def dispose_def
        startFlowServer_def startFlowServer_resume_def getValue_def Let_def
        split: prod.splits option.splits)

lemma run_rawExecs: "rawExecs (run evs s) = rawExecs s"
  by (induction evs arbitrary: s) (simp_all add: step_rawExecs)

lemma updateServerStatus_rawExecs: "rawExecs (snd (updateServerStatus res s)) = rawExecs s"
  using step_rawExecs [of "Update res" s] by simp

lemma rawExecFlow_rawExecs: "rawExecs (snd (rawExecFlow args a s)) = rawExecs s + 1"
  by (simp add: rawExecFlow_eq Let_def run_rawExecs updateServerStatus_rawExecs
      split: settled.splits)

text \<open>
  The loop calls \<open>_rawExecFlow\<close> once per iteration, and the counter \<open>i\<close> of an
  iteration that retries is below \<open>maxTries\<close>: the iterations are those with
  \<open>i = 0, ..., maxTries\<close>, which makes \<open>maxTries + 1\<close> calls at most.
\<close>

lemma execFlow_loop_rawExecs_le:
  "i \<le> maxTries \<Longrightarrow>
   rawExecs (snd (execFlow_loop args env logErrors i s)) \<le> rawExecs s + (maxTries + 1 - i)"
proof (induction args env logErrors i s rule: execFlow_loop.induct)
  case (1 args env logErrors i s)
  obtain res s1 where r: "rawExecFlow args (env i) s = (res, s1)"
    by (cases "rawExecFlow args (env i) s")
  have c: "rawExecs (run (beforeResume (env i)) s1) = rawExecs s + 1"
    using rawExecFlow_rawExecs [of args "env i" s] r by (simp add: run_rawExecs)
  show ?case
  proof (cases res)
    case (Inr v)
    then show ?thesis using r c "1.prems" by (simp add: execFlow_loop_return)
  next
    case (Inl e)
    show ?thesis
    proof (cases "i < maxTries \<and> shouldRetry (run (beforeResume (env i)) s1)")
      case True
      have eq: "execFlow_loop args env logErrors i s =
                execFlow_loop args env logErrors (i + 1) (run (beforeResume (env i)) s1)"
        using execFlow_loop_retry [of args env i s e s1 logErrors] r Inl True by simp
      have ih: "rawExecs (snd (execFlow_loop args env logErrors (i + 1)
                                 (run (beforeResume (env i)) s1)))
                 \<le> rawExecs (run (beforeResume (env i)) s1) + (maxTries + 1 - (i + 1))"
        using "1.IH" [OF r [symmetric] Inl refl True] True by simp
      show ?thesis unfolding eq using ih c True by arith
    next
      case False
      then show ?thesis using r Inl c "1.prems" by (simp add: execFlow_loop_throw)
    qed
  qed
qed

lemma execFlow_rawExecs_le:
  "rawExecs (snd (execFlow args env logErrors s)) \<le> rawExecs s + 6"
  using execFlow_loop_rawExecs_le [of 0 args env logErrors s]
  by (simp add: execFlow_def maxTries_def)

text \<open>
  A command that is rejected four times while the server is busy and resolves the
  fifth time returns the fifth result.
\<close>

lemma execFlow_fifth_attempt:
  "execFlow [''check'']
     (\<lambda>i. undisturbed (if i < 4 then Rejected (exited 7) else Resolved (exited 0)))
     True (constructor ''/r'')
   = (Inr (Some (exited 0)),
      (constructor ''/r'')
        \<lparr>serverStatus := Ready, delivered := [Unknown, Busy, Ready], rawExecs := 5,
         executed := replicate 5 [''check'', ''--no-auto-start'', ''--from'', ''nuclide'']\<rparr>)"
  by code_simp

text \<open>
  Claim C1. A call of \<open>execFlow\<close> makes at most 5 calls of \<open>_rawExecFlow\<close>. The loop
  tests \<open>i < maxTries\<close> after the call, with \<open>i\<close> counting from 0 and \<open>maxTries = 5\<close>,
  so the iteration with \<open>i = 5\<close> still runs: a command that is rejected every time
  while the server is busy is run 6 times before the error is rethrown.
\<close>

theorem execFlow_six_attempts:
  "execFlow [''check''] (\<lambda>i. undisturbed (Rejected (exited 7))) True (constructor ''/r'')
   = (Inl (Ret (exited 7)),
      (constructor ''/r'')
        \<lparr>serverStatus := Busy, delivered := [Unknown, Busy], rawExecs := 6,
         executed := replicate 6 [''check'', ''--no-auto-start'', ''--from'', ''nuclide''],
         log := [FlowFailed [''check''] (Ret (exited 7))]\<rparr>)"
  by code_simp

subsection \<open>A call on a failed server\<close>

text \<open>
  Claim C4. A call of \<open>execFlow\<close> while the status is \<open>'failed'\<close> returns null at once:
  the object is left as it was, so \<open>_rawExecFlow\<close> is not called and no process is
  run.
\<close>

theorem execFlow_failed_returns_null:
  "getValue s = Failed \<Longrightarrow> execFlow args env logErrors s = (Inr None, s)"
  by (simp add: execFlow_def)

theorem execFlow_failed_returns_null_witness:
  "getValue (run [Update (Some (Ret (exited 6))), Spawned, Exited (Some 2) None]
      (constructor ''/r'')) = Failed \<and>
   execFlow [''check''] (\<lambda>i. undisturbed (Resolved (exited 0))) True
     (run [Update (Some (Ret (exited 6))), Spawned, Exited (Some 2) None] (constructor ''/r''))
   = (Inr None,
      run [Update (Some (Ret (exited 6))), Spawned, Exited (Some 2) None] (constructor ''/r''))"
proof -
  have failed: "getValue (run [Update (Some (Ret (exited 6))), Spawned, Exited (Some 2) None]
                  (constructor ''/r'')) = Failed"
    by code_simp
  show ?thesis
    using failed execFlow_failed_returns_null [OF failed] by simp
qed

subsection \<open>Rethrowing and returning\<close>

text \<open>
  A call of \<open>execFlow\<close> that reaches iteration \<open>k\<close> goes on as the loop does from
  there, and has called \<open>_rawExecFlow\<close> \<open>k\<close> times so far.
\<close>

lemma iteration_loop:
  "iteration args env k s = Some sk \<Longrightarrow>
   execFlow_loop args env logErrors 0 s = execFlow_loop args env logErrors k sk \<and>
   rawExecs sk = rawExecs s + k"
proof (induction k arbitrary: sk)
  case 0
  then show ?case by simp
next
  case (Suc k)
  from Suc.prems obtain sj where j: "iteration args env k s = Some sj"
    by (cases "iteration args env k s") auto
  obtain res s1 where r: "rawExecFlow args (env k) sj = (res, s1)"
    by (cases "rawExecFlow args (env k) sj")
  from Suc.prems j r obtain e where e: "res = Inl e"
    by (cases res) auto
  from Suc.prems j r e
  have c: "k < maxTries" "shouldRetry (run (beforeResume (env k)) s1)"
    and sk: "sk = run (beforeResume (env k)) s1"
    by (auto simp: Let_def split: if_splits)
  have n: "rawExecs sk = rawExecs sj + 1"
    using rawExecFlow_rawExecs [of args "env k" sj] r sk by (simp add: run_rawExecs)
  from Suc.IH [OF j] execFlow_loop_retry [of args env k sj e s1 logErrors] r e c sk n
  show ?case by simp
qed

text \<open>
  Claim C7. For every call of \<open>execFlow\<close> made while the status is not \<open>'failed'\<close>, and
  every attempt the call reaches (the attempt with loop counter \<open>k\<close>, begun in state
  \<open>sk\<close>): when the attempt throws and the status read in the \<open>catch\<close> clause is none of
  \<open>'not running'\<close>, \<open>'init'\<close>, \<open>'busy'\<close>, the call throws that error to its caller, having
  logged it exactly when \<open>logErrors\<close> is true, and having made no further call of
  \<open>_rawExecFlow\<close> (\<open>k + 1\<close> in all); when the attempt returns a result, the call returns
  that result, again after \<open>k + 1\<close> calls of \<open>_rawExecFlow\<close>.
\<close>

theorem execFlow_rethrows_or_returns:
  "(getValue s \<noteq> Failed \<and> iteration args env k s = Some sk \<and>
    rawExecFlow args (env k) sk = (Inl e, s1) \<and>
    getValue (run (beforeResume (env k)) s1) \<notin> {NotRunning, Init, Busy} \<longrightarrow>
      execFlow args env logErrors s =
        (Inl e,
         if logErrors
         then (run (beforeResume (env k)) s1)
                \<lparr>log := log (run (beforeResume (env k)) s1) @ [FlowFailed args e]\<rparr>
         else run (beforeResume (env k)) s1) \<and>
      rawExecs (snd (execFlow args env logErrors s)) = rawExecs s + k + 1) \<and>
   (getValue s \<noteq> Failed \<and> iteration args env k s = Some sk \<and>
    rawExecFlow args (env k) sk = (Inr v, s1) \<longrightarrow>
      execFlow args env logErrors s = (Inr v, run (beforeResume (env k)) s1) \<and>
      rawExecs (snd (execFlow args env logErrors s)) = rawExecs s + k + 1)"
proof (intro conjI impI)
  assume a: "getValue s \<noteq> Failed \<and> iteration args env k s = Some sk \<and>
    rawExecFlow args (env k) sk = (Inl e, s1) \<and>
    getValue (run (beforeResume (env k)) s1) \<notin> {NotRunning, Init, Busy}"
  then have n: "\<not> (k < maxTries \<and> shouldRetry (run (beforeResume (env k)) s1))"
    by (simp add: shouldRetry_def)
  from a have r: "rawExecFlow args (env k) sk = (Inl e, s1)" by simp
  from a have l: "execFlow args env logErrors s = execFlow_loop args env logErrors k sk"
    and m: "rawExecs sk = rawExecs s + k"
    using iteration_loop [of args env k s sk logErrors] by (simp_all add: execFlow_def)
  have c: "rawExecs (run (beforeResume (env k)) s1) = rawExecs sk + 1"
    using rawExecFlow_rawExecs [of args "env k" sk] r by (simp add: run_rawExecs)
  note t = execFlow_loop_throw [of args env k sk e s1 logErrors, OF r n]
  show "execFlow args env logErrors s =
        (Inl e,
         if logErrors
         then (run (beforeResume (env k)) s1)
                \<lparr>log := log (run (beforeResume (env k)) s1) @ [FlowFailed args e]\<rparr>
         else run (beforeResume (env k)) s1)"
    by (simp add: l t)
  show "rawExecs (snd (execFlow args env logErrors s)) = rawExecs s + k + 1"
    using c m by (simp add: l t)
next
  assume a: "getValue s \<noteq> Failed \<and> iteration args env k s = Some sk \<and>
    rawExecFlow args (env k) sk = (Inr v, s1)"
  from a have r: "rawExecFlow args (env k) sk = (Inr v, s1)" by simp
  from a have l: "execFlow args env logErrors s = execFlow_loop args env logErrors k sk"
    and m: "rawExecs sk = rawExecs s + k"
    using iteration_loop [of args env k s sk logErrors] by (simp_all add: execFlow_def)
  have c: "rawExecs (run (beforeResume (env k)) s1) = rawExecs sk + 1"
    using rawExecFlow_rawExecs [of args "env k" sk] r by (simp add: run_rawExecs)
  note t = execFlow_loop_return [of args env k sk v s1 logErrors, OF r]
  show "execFlow args env logErrors s = (Inr v, run (beforeResume (env k)) s1)"
    by (simp add: l t)
  show "rawExecs (snd (execFlow args env logErrors s)) = rawExecs s + k + 1"
    using c m by (simp add: l t)
qed

text \<open>
  Two rejections while the server is busy, then a type error (exit code 2, status
  \<open>'ready'\<close>): the third attempt is the last, with and without logging. The same with a
  third attempt that resolves. And a type error at the first attempt: one attempt.
\<close>

theorem execFlow_rethrows_or_returns_witness:
  "getValue (constructor ''/r'') \<noteq> Failed \<and>
   iteration [''check'']
     (\<lambda>i. undisturbed (if i < 2 then Rejected (exited 7) else Rejected (exited 2))) 2
     (constructor ''/r'')
     = Some ((constructor ''/r'')
          \<lparr>serverStatus := Busy, delivered := [Unknown, Busy], rawExecs := 2,
           executed := replicate 2 [''check'', ''--no-auto-start'', ''--from'', ''nuclide'']\<rparr>) \<and>
   execFlow [''check'']
     (\<lambda>i. undisturbed (if i < 2 then Rejected (exited 7) else Rejected (exited 2))) True
     (constructor ''/r'')
     = (Inl (Ret (exited 2)),
        (constructor ''/r'')
          \<lparr>serverStatus := Ready, delivered := [Unknown, Busy, Ready], rawExecs := 3,
           executed := replicate 3 [''check'', ''--no-auto-start'', ''--from'', ''nuclide''],
           log := [FlowFailed [''check''] (Ret (exited 2))]\<rparr>) \<and>
   execFlow [''check'']
     (\<lambda>i. undisturbed (if i < 2 then Rejected (exited 7) else Rejected (exited 2))) False
     (constructor ''/r'')
     = (Inl (Ret (exited 2)),
        (constructor ''/r'')
          \<lparr>serverStatus := Ready, delivered := [Unknown, Busy, Ready], rawExecs := 3,
           executed := replicate 3 [''check'', ''--no-auto-start'', ''--from'', ''nuclide'']\<rparr>) \<and>
   execFlow [''check'']
     (\<lambda>i. undisturbed (if i < 2 then Rejected (exited 7) else Resolved (exited 0))) True
     (constructor ''/r'')
     = (Inr (Some (exited 0)),
        (constructor ''/r'')
          \<lparr>serverStatus := Ready, delivered := [Unknown, Busy, Ready], rawExecs := 3,
           executed := replicate 3 [''check'', ''--no-auto-start'', ''--from'', ''nuclide'']\<rparr>) \<and>
   execFlow [''check''] (\<lambda>i. undisturbed (Rejected (exited 2))) True (constructor ''/r'')
     = (Inl (Ret (exited 2)),
        (constructor ''/r'')
          \<lparr>serverStatus := Ready, delivered := [Unknown, Ready], rawExecs := 1,
           executed := [[''check'', ''--no-auto-start'', ''--from'', ''nuclide'']],
           log := [FlowFailed [''check''] (Ret (exited 2))]\<rparr>)"
proof -
  let ?s = "constructor ''/r''"
  let ?a = "[''check'', ''--no-auto-start'', ''--from'', ''nuclide'']"
  let ?throws = "\<lambda>i::nat. undisturbed (if i < 2 then Rejected (exited 7) else Rejected (exited 2))"
  let ?returns = "\<lambda>i::nat. undisturbed (if i < 2 then Rejected (exited 7) else Resolved (exited 0))"
  let ?first = "\<lambda>i::nat. undisturbed (Rejected (exited 2))"
  let ?s2 = "?s\<lparr>serverStatus := Busy, delivered := [Unknown, Busy], rawExecs := 2,
                 executed := replicate 2 ?a\<rparr>"
  let ?s3 = "?s\<lparr>serverStatus := Ready, delivered := [Unknown, Busy, Ready], rawExecs := 3,
                 executed := replicate 3 ?a\<rparr>"
  let ?s1 = "?s\<lparr>serverStatus := Ready, delivered := [Unknown, Ready], rawExecs := 1,
                 executed := [?a]\<rparr>"
  have new: "getValue ?s \<noteq> Failed" "rawExecs ?s = 0"
    by (simp_all add: getValue_def constructor_def)
  have reach: "iteration [''check''] ?throws 2 ?s = Some ?s2"
    "iteration [''check''] ?returns 2 ?s = Some ?s2"
    "iteration [''check''] ?first 0 ?s = Some ?s"
    by code_simp+
  have third: "rawExecFlow [''check''] (?throws 2) ?s2 = (Inl (Ret (exited 2)), ?s3)"
    "rawExecFlow [''check''] (?returns 2) ?s2 = (Inr (Some (exited 0)), ?s3)"
    "rawExecFlow [''check''] (?first 0) ?s = (Inl (Ret (exited 2)), ?s1)"
    by code_simp+
  have ready: "getValue (run (beforeResume (?throws 2)) ?s3) \<notin> {NotRunning, Init, Busy}"
    "getValue (run (beforeResume (?first 0)) ?s1) \<notin> {NotRunning, Init, Busy}"
    by (simp_all add: undisturbed_def getValue_def)
  have quiet: "run (beforeResume (?throws 2)) ?s3 = ?s3"
    "run (beforeResume (?returns 2)) ?s3 = ?s3"
    "run (beforeResume (?first 0)) ?s1 = ?s1"
    by (simp_all add: undisturbed_def)
  have logs: "log ?s3 = []" "log ?s1 = []"
    by (simp_all add: constructor_def)
  show ?thesis
    using new reach third ready quiet logs
      execFlow_rethrows_or_returns
        [of ?s "[''check'']" ?throws 2 ?s2 "Ret (exited 2)" ?s3 True "Some (exited 0)"]
      execFlow_rethrows_or_returns
        [of ?s "[''check'']" ?throws 2 ?s2 "Ret (exited 2)" ?s3 False "Some (exited 0)"]
      execFlow_rethrows_or_returns
        [of ?s "[''check'']" ?returns 2 ?s2 "Ret (exited 2)" ?s3 True "Some (exited 0)"]
      execFlow_rethrows_or_returns
        [of ?s "[''check'']" ?first 0 ?s "Ret (exited 2)" ?s1 True "Some (exited 0)"]
    by simp
qed

subsection \<open>Flow is not installed\<close>

text \<open>
  Claim C5. When Flow is not installed, \<open>_rawExecFlow\<close> returns null without running a
  process, and the status becomes \<open>'not installed'\<close>. The first half holds. The early
  return of line 146 leaves before \<open>_updateServerStatus\<close> is called, so the status stays
  what it was: on a new object it is still \<open>'unknown'\<close>.
\<close>

theorem rawExecFlow_not_installed:
  "rawExecFlow args (a\<lparr>installed := False, whileChecking := []\<rparr>) s
     = (Inr None, s\<lparr>rawExecs := rawExecs s + 1\<rparr>) \<and>
   getValue (snd (rawExecFlow args (a\<lparr>installed := False, whileChecking := []\<rparr>)
                    (constructor r))) = Unknown"
  by (simp add: rawExecFlow_eq getValue_def constructor_def)

subsection \<open>The server exits\<close>

text \<open>
  Claim C3. When the started server exits with code 2 and no signal, the handler sets
  the status to \<open>'failed'\<close> and completes the subject: afterwards the subject has
  completed, and when it had not completed before, its value is \<open>'failed'\<close> and
  \<open>'failed'\<close> was delivered to the subscribers. (A subject that had already completed,
  after \<open>dispose\<close> or an earlier crash, ignores the \<open>onNext\<close>.) When the server exits
  with a null code and a signal, as after a manual kill, the handler does nothing: the
  status is unchanged and the subject stays as it was.
\<close>

theorem onExit_crash_or_kill:
  "isStopped (onExit (Some 2) None s) \<and>
   (\<not> isStopped s \<longrightarrow>
      getValue (onExit (Some 2) None s) = Failed \<and>
      delivered (onExit (Some 2) None s) = delivered s @ [Failed]) \<and>
   onExit None (Some signal) s = s"
  by (simp add: onExit_def onNext_def onCompleted_def getValue_def Let_def)

theorem onExit_crash_or_kill_witness:
  "\<not> isStopped (run [Update (Some (Ret (exited 6))), Spawned] (constructor ''/r'')) \<and>
   isStopped (onExit (Some 2) None
     (run [Update (Some (Ret (exited 6))), Spawned] (constructor ''/r''))) \<and>
   getValue (onExit (Some 2) None
     (run [Update (Some (Ret (exited 6))), Spawned] (constructor ''/r''))) = Failed \<and>
   delivered (onExit (Some 2) None
     (run [Update (Some (Ret (exited 6))), Spawned] (constructor ''/r'')))
     = [Unknown, NotRunning, Failed] \<and>
   getValue (onExit None (Some ''SIGTERM'')
     (run [Update (Some (Ret (exited 6))), Spawned] (constructor ''/r''))) = NotRunning \<and>
   \<not> isStopped (onExit None (Some ''SIGTERM'')
     (run [Update (Some (Ret (exited 6))), Spawned] (constructor ''/r'')))"
proof -
  let ?s = "run [Update (Some (Ret (exited 6))), Spawned] (constructor ''/r'')"
  have open_channel: "\<not> isStopped ?s" by code_simp
  have before: "delivered ?s = [Unknown, NotRunning]" "getValue ?s = NotRunning"
    by code_simp+
  show ?thesis
    using onExit_crash_or_kill [of ?s "''SIGTERM''"] open_channel before by simp
qed

subsection \<open>After \<open>dispose\<close>\<close>






subsection \<open>Starting the server\<close>

text \<open>
  Claim C8. Every transition of the status into \<open>'not running'\<close> starts a server, and
  at most one start is in flight at a time. The second half does not hold: three
  commands that exit with 6, 7 and 6 before the first spawn has resolved leave two
  calls of \<open>_startFlowServer\<close> in flight, and two server processes are spawned.
\<close>

theorem two_starts_in_flight:
  "\<not> starting (run [Update (Some (Ret (exited 6))), Update (Some (Ret (exited 7))),
                     Update (Some (Ret (exited 6)))] (constructor ''/r'')) \<le> 1 \<and>
   spawned (run [Update (Some (Ret (exited 6))), Update (Some (Ret (exited 7))),
                 Update (Some (Ret (exited 6))), Spawned, Spawned] (constructor ''/r'')) = 2"
  by code_simp

text \<open>
  Claim C8, amended. A call of \<open>_updateServerStatus\<close> begins one call of
  \<open>_startFlowServer\<close> exactly when the subject has not completed, the status chosen is
  \<open>'not running'\<close> and the current status is another one, however many starts are in
  flight already; and every start in flight spawns one process of its own, which
  replaces \<open>_startedServer\<close>.
\<close>

theorem not_running_starts_server:
  "starting (snd (updateServerStatus res s)) =
     starting s +
       (if \<not> isStopped s \<and> fst (chooseStatus (root s) res) = Some NotRunning \<and>
           getValue s \<noteq> NotRunning then 1 else 0) \<and>
   (0 < starting s \<longrightarrow>
      starting (startFlowServer_resume s) = starting s - 1 \<and>
      spawned (startFlowServer_resume s) = spawned s + 1 \<and>
      startedServer (startFlowServer_resume s) = Some (spawned s))"
  using chooseStatus_Some [of "root s" res]
  by (auto simp: updateServerStatus_def onNext_def startFlowServer_def
      startFlowServer_resume_def getValue_def Let_def split: prod.splits option.splits)

theorem not_running_starts_server_witness:
  "starting (run [Update (Some (Ret (exited 6))), Update (Some (Ret (exited 7)))]
      (constructor ''/r'')) = 1 \<and>
   starting (snd (updateServerStatus (Some (Ret (exited 6)))
      (run [Update (Some (Ret (exited 6))), Update (Some (Ret (exited 7)))]
         (constructor ''/r'')))) = 2 \<and>
   spawned (startFlowServer_resume
      (run [Update (Some (Ret (exited 6))), Update (Some (Ret (exited 7)))]
         (constructor ''/r''))) = 1 \<and>
   startedServer (startFlowServer_resume
      (run [Update (Some (Ret (exited 6))), Update (Some (Ret (exited 7)))]
         (constructor ''/r''))) = Some 0"
proof -
  let ?s = "run [Update (Some (Ret (exited 6))), Update (Some (Ret (exited 7)))]
      (constructor ''/r'')"
  have s: "starting ?s = 1" "spawned ?s = 0" "\<not> isStopped ?s" "getValue ?s = Busy"
    "root ?s = ''/r''"
    by code_simp+
  have c: "fst (chooseStatus ''/r'' (Some (Ret (exited 6)))) = Some NotRunning"
    by code_simp
  show ?thesis
    using not_running_starts_server [of "Some (Ret (exited 6))" ?s] s c by simp
qed

subsection \<open>No value is delivered twice in a row\<close>

lemma constructor_inv: "channel_inv (constructor r)"
  by (simp add: channel_inv_def constructor_def)

lemma onNext_inv:
  "channel_inv s \<Longrightarrow> v \<noteq> serverStatus s \<Longrightarrow> v \<noteq> Failed \<Longrightarrow> channel_inv (onNext v s)"
  by (auto simp: channel_inv_def onNext_def startFlowServer_def Let_def
      distinct_adj_append_iff)

lemma frame_inv [simp]:
  "channel_inv (s\<lparr>log := l\<rparr>) = channel_inv s"
  "channel_inv (s\<lparr>rawExecs := n\<rparr>) = channel_inv s"
  "channel_inv (s\<lparr>executed := x\<rparr>) = channel_inv s"
  by (simp_all add: channel_inv_def)

lemma updateServerStatus_inv:
  "channel_inv s \<Longrightarrow> channel_inv (snd (updateServerStatus res s))"
  using chooseStatus_not_Failed [of "root s" res]
  by (auto simp: updateServerStatus_def getValue_def Let_def
      intro!: onNext_inv split: prod.splits option.splits)

lemma onExit_inv: "channel_inv s \<Longrightarrow> channel_inv (onExit code signal s)"
  by (auto simp: channel_inv_def onExit_def onNext_def onCompleted_def Let_def
      distinct_adj_append_iff)

lemma dispose_inv: "channel_inv s \<Longrightarrow> channel_inv (dispose s)"
  by (auto simp: channel_inv_def dispose_def onCompleted_def Let_def split: option.splits)

lemma resume_inv: "channel_inv s \<Longrightarrow> channel_inv (startFlowServer_resume s)"
  by (auto simp: channel_inv_def startFlowServer_resume_def)

lemma step_inv: "channel_inv s \<Longrightarrow> channel_inv (step e s)"
  by (cases e) (simp_all add: updateServerStatus_inv onExit_inv dispose_inv resume_inv)

lemma run_inv: "channel_inv s \<Longrightarrow> channel_inv (run evs s)"
  by (induction evs arbitrary: s) (simp_all add: step_inv)

lemma rawExecFlow_inv: "channel_inv s \<Longrightarrow> channel_inv (snd (rawExecFlow args a s))"
  by (simp add: rawExecFlow_eq Let_def run_inv updateServerStatus_inv split: settled.splits)

lemma execFlow_loop_inv:
  "channel_inv s \<Longrightarrow> channel_inv (snd (execFlow_loop args env logErrors i s))"
proof (induction args env logErrors i s rule: execFlow_loop.induct)
  case (1 args env logErrors i s)
  obtain res s1 where r: "rawExecFlow args (env i) s = (res, s1)"
    by (cases "rawExecFlow args (env i) s")
  have i1: "channel_inv s1"
    using rawExecFlow_inv [OF "1.prems", of args "env i"] r by simp
  have i2: "channel_inv (run (beforeResume (env i)) s1)"
    using i1 by (rule run_inv)
  show ?case
  proof (cases res)
    case (Inr v)
    then show ?thesis using r i2 by (simp add: execFlow_loop_return)
  next
    case (Inl e)
    show ?thesis
    proof (cases "i < maxTries \<and> shouldRetry (run (beforeResume (env i)) s1)")
      case True
      then show ?thesis
        using "1.IH" [OF r [symmetric] Inl refl True i2] r Inl
        by (simp add: execFlow_loop_retry)
    next
      case False
      then show ?thesis using r Inl i2
        by (simp add: execFlow_loop_throw)
    qed
  qed
qed

lemma execFlow_inv: "channel_inv s \<Longrightarrow> channel_inv (snd (execFlow args env logErrors s))"
  by (simp add: execFlow_def execFlow_loop_inv)

lemma step_delivered:
  "channel_inv s \<Longrightarrow>
   delivered (step e s) = delivered s \<or>
   (\<exists>v. v \<noteq> getValue s \<and> delivered (step e s) = delivered s @ [v])"
  by (cases e)
     (auto simp: channel_inv_def updateServerStatus_def onNext_def onCompleted_def onExit_def
        dispose_def startFlowServer_def startFlowServer_resume_def getValue_def Let_def
        split: prod.splits option.splits)

text \<open>
  Claim C6. Over every sequence of status updates from commands, server exits, spawns
  and \<open>dispose\<close> on a new object, a value is passed to the subscribers only when it
  differs from the current value of the subject: each further callback delivers
  nothing, or one value other than the current one; the subscribers never receive the
  same value twice in a row, also through a call of \<open>execFlow\<close>; and the last value
  they received is the current one.
\<close>

theorem no_duplicate_notifications:
  "(delivered (step e (run evs (constructor r))) = delivered (run evs (constructor r)) \<or>
    (\<exists>v. v \<noteq> getValue (run evs (constructor r)) \<and>
         delivered (step e (run evs (constructor r)))
           = delivered (run evs (constructor r)) @ [v])) \<and>
   distinct_adj (delivered (run evs (constructor r))) \<and>
   distinct_adj (delivered (snd (execFlow args env logErrors (run evs (constructor r))))) \<and>
   last (delivered (run evs (constructor r))) = getValue (run evs (constructor r))"
proof -
  have i: "channel_inv (run evs (constructor r))"
    by (rule run_inv) (rule constructor_inv)
  have j: "channel_inv (snd (execFlow args env logErrors (run evs (constructor r))))"
    using i by (rule execFlow_inv)
  show ?thesis
    using step_delivered [OF i, of e] i j by (simp add: channel_inv_def getValue_def)
qed

end
